theory Spec2Isabelle
  imports Main "HOL-Library.Word"
begin

unbundle bit_operations_syntax

section \<open>The machine: bytes, addresses, exceptions\<close>

text \<open>
  The header \<^verbatim>\<open>ezh.h\<close> is modelled on a 64-bit little-endian target (LP64, as x86-64 or
  AArch64 Linux): \<^verbatim>\<open>size_t\<close> and \<^verbatim>\<open>char*\<close> are 64-bit words whose arithmetic wraps,
  and memory is a flat store from addresses to bytes. The null pointer is the address 0.
  The store is total: \<^verbatim>\<open>std::memcpy\<close> through a pointer that leaves its allocation is undefined
  behaviour in C++; the model gives it the meaning that a flat address space gives it.
\<close>

type_synonym byte = "8 word"
type_synonym size_t = "64 word"
type_synonym ptr = "64 word"
type_synonym memory = "ptr \<Rightarrow> byte"

text \<open>All three functions throw \<^verbatim>\<open>std::runtime_error\<close>, told apart by its message.\<close>

datatype exn = runtime_error string

text \<open>
  The specification's names for the errors: \<^verbatim>\<open>InvalidDestination\<close> is what the stream writer
  and the raw-memory writer throw, \<^verbatim>\<open>CapacityExceeded\<close> what the buffer writer throws.
\<close>

definition InvalidDestination :: "exn \<Rightarrow> bool" where
  "InvalidDestination e \<longleftrightarrow>
     e = runtime_error ''File stream is not open'' \<or> e = runtime_error ''Null buffer pointer''"

definition CapacityExceeded :: "exn \<Rightarrow> bool" where
  "CapacityExceeded e \<longleftrightarrow> e = runtime_error ''Buffer too small for data''"

section \<open>Non-pointer fundamental values\<close>

text \<open>
  The template constraint \<^verbatim>\<open>std::is_fundamental_v<Args> && ... && !std::is_pointer_v<Args>\<close>
  admits arithmetic types only. A value is its type together with its bit pattern; the
  signed and the unsigned variant of an integer type share width and representation and
  are one constructor here. Floating-point values are carried as their IEEE bit patterns:
  the writers copy bytes and never compute with the value.
\<close>

datatype fval =
    VBool bool
  | VChar byte
  | VShort "16 word"
  | VInt "32 word"
  | VLong "64 word"
  | VFloat "32 word"
  | VDouble "64 word"

datatype ftype = TBool | TChar | TShort | TInt | TLong | TFloat | TDouble

fun type_of :: "fval \<Rightarrow> ftype" where
  "type_of (VBool _) = TBool"
| "type_of (VChar _) = TChar"
| "type_of (VShort _) = TShort"
| "type_of (VInt _) = TInt"
| "type_of (VLong _) = TLong"
| "type_of (VFloat _) = TFloat"
| "type_of (VDouble _) = TDouble"

fun sizeof_type :: "ftype \<Rightarrow> size_t" where
  "sizeof_type TBool = 1"
| "sizeof_type TChar = 1"
| "sizeof_type TShort = 2"
| "sizeof_type TInt = 4"
| "sizeof_type TLong = 8"
| "sizeof_type TFloat = 4"
| "sizeof_type TDouble = 8"

definition sizeof :: "fval \<Rightarrow> size_t" where
  "sizeof a = sizeof_type (type_of a)"

text \<open>Little-endian bytes of a word, least significant first, and the word of such bytes.\<close>

fun le_bytes :: "nat \<Rightarrow> 'a::len word \<Rightarrow> byte list" where
  "le_bytes 0 w = []"
| "le_bytes (Suc n) w = ucast w # le_bytes n (drop_bit 8 w)"

fun le_word :: "byte list \<Rightarrow> 'a::len word" where
  "le_word [] = 0"
| "le_word (b # bs) = ucast b OR push_bit 8 (le_word bs)"

text \<open>
  The object representation: the bytes that \<^verbatim>\<open>reinterpret_cast<const char*>(&arg)\<close> and
  the source operand \<^verbatim>\<open>&arg\<close> of \<^verbatim>\<open>memcpy\<close> point to.
\<close>

fun object_bytes :: "fval \<Rightarrow> byte list" where
  "object_bytes (VBool b) = [if b then 1 else 0]"
| "object_bytes (VChar c) = [c]"
| "object_bytes (VShort w) = le_bytes 2 w"
| "object_bytes (VInt w) = le_bytes 4 w"
| "object_bytes (VLong w) = le_bytes 8 w"
| "object_bytes (VFloat w) = le_bytes 4 w"
| "object_bytes (VDouble w) = le_bytes 8 w"

section \<open>Raw memory\<close>

text \<open>Storing a run of bytes at consecutive addresses, and reading a run back.\<close>

fun store :: "memory \<Rightarrow> ptr \<Rightarrow> byte list \<Rightarrow> memory" where
  "store mem p [] = mem"
| "store mem p (b # bs) = store (mem(p := b)) (p + 1) bs"

definition load :: "memory \<Rightarrow> ptr \<Rightarrow> nat \<Rightarrow> byte list" where
  "load mem p n = map (\<lambda>i. mem (p + of_nat i)) [0..<n]"

text \<open>\<^verbatim>\<open>std::memcpy(dest, src, count)\<close>, with the bytes found at \<^verbatim>\<open>src\<close> given as a list.\<close>

definition memcpy :: "memory \<Rightarrow> ptr \<Rightarrow> byte list \<Rightarrow> size_t \<Rightarrow> memory" where
  "memcpy mem dest src count = store mem dest (take (unat count) src)"

section \<open>Output file streams\<close>

text \<open>
  What the code uses of \<^verbatim>\<open>std::ofstream\<close>, after the C++ standard library: whether the
  file buffer is open, the three state flags of \<^verbatim>\<open>std::ios_base::iostate\<close>, and the bytes
  inserted so far. A default-constructed stream and a stream closed by a successful
  \<^verbatim>\<open>close()\<close> are not open and have no flag set; a failed \<^verbatim>\<open>open\<close> sets \<^verbatim>\<open>failbit\<close>.
  The exception mask is the default one (\<^verbatim>\<open>setstate\<close> throws nothing), and an open file
  accepts every byte.
\<close>

record ofstream =
  is_open :: bool
  eofbit :: bool
  failbit :: bool
  badbit :: bool
  contents :: "byte list"

definition good :: "ofstream \<Rightarrow> bool" where
  "good os \<longleftrightarrow> \<not> eofbit os \<and> \<not> failbit os \<and> \<not> badbit os"

text \<open>\<^verbatim>\<open>fail()\<close>; \<^verbatim>\<open>operator!\<close> of a stream returns it.\<close>

definition fail :: "ofstream \<Rightarrow> bool" where
  "fail os \<longleftrightarrow> failbit os \<or> badbit os"

text \<open>
  \<^verbatim>\<open>ostream::write(s, n)\<close>, an unformatted output function: its sentry sets \<^verbatim>\<open>failbit\<close>
  when the stream is not \<^verbatim>\<open>good()\<close>; otherwise the characters go to the buffer, and
  \<^verbatim>\<open>badbit\<close> is set when an insertion fails, as every insertion into a file buffer that is
  not open does.
\<close>

definition ostream_write :: "ofstream \<Rightarrow> byte list \<Rightarrow> size_t \<Rightarrow> ofstream" where
  "ostream_write os s n =
     (if good os then
        (if is_open os then os\<lparr>contents := contents os @ take (unat n) s\<rparr>
         else os\<lparr>badbit := True\<rparr>)
      else os\<lparr>failbit := True\<rparr>)"

text \<open>Streams are passed by reference: a store of stream objects, indexed by reference.\<close>

type_synonym ofstream_ref = nat
type_synonym streams = "ofstream_ref \<Rightarrow> ofstream"

section \<open>The writers\<close>

subsection \<open>writeToFile\<close>

text \<open>
  The fold \<^verbatim>\<open>((file.write(reinterpret_cast<const char*>(&args), sizeof(args))), ...)\<close> over
  the comma operator: one \<^verbatim>\<open>write\<close> per argument, left to right.
\<close>

fun write_args :: "ofstream \<Rightarrow> fval list \<Rightarrow> ofstream" where
  "write_args os [] = os"
| "write_args os (a # as) = write_args (ostream_write os (object_bytes a) (sizeof a)) as"

text \<open>The result is the exception thrown or the reference returned, with the final store.\<close>

definition writeToFile ::
  "streams \<Rightarrow> ofstream_ref \<Rightarrow> fval list \<Rightarrow> (exn + ofstream_ref) \<times> streams" where
  "writeToFile \<sigma> file args =
     (if fail (\<sigma> file) then (Inl (runtime_error ''File stream is not open''), \<sigma>)
      else (Inr file, \<sigma>(file := write_args (\<sigma> file) args)))"

subsection \<open>writeToRawMemory\<close>

text \<open>
  The fold \<^verbatim>\<open>((std::memcpy(ptr, &args, sizeof(args)), ptr += sizeof(args)), ...)\<close>, threading
  the memory and the cursor \<^verbatim>\<open>ptr\<close>.
\<close>

fun copy_args :: "memory \<Rightarrow> ptr \<Rightarrow> fval list \<Rightarrow> memory \<times> ptr" where
  "copy_args mem p [] = (mem, p)"
| "copy_args mem p (a # as) =
     copy_args (memcpy mem p (object_bytes a) (sizeof a)) (p + sizeof a) as"

definition writeToRawMemory ::
  "memory \<Rightarrow> ptr \<Rightarrow> fval list \<Rightarrow> (exn + ptr) \<times> memory" where
  "writeToRawMemory mem buffer args =
     (if buffer = 0 then (Inl (runtime_error ''Null buffer pointer''), mem)
      else (case copy_args mem buffer args of (mem', p) \<Rightarrow> (Inr p, mem')))"

subsection \<open>writeToBuffer\<close>

text \<open>
  A \<^verbatim>\<open>std::vector<char>\<close> is the pointer \<^verbatim>\<open>data()\<close> and the count \<^verbatim>\<open>size()\<close>; its elements
  are the bytes of memory from \<^verbatim>\<open>data()\<close> on. The function never changes the vector
  object itself, only its elements.
\<close>

record vector =
  data :: ptr
  size_v :: size_t

text \<open>
  A vector's storage lies inside the address space, and a vector that is not empty has
  storage: \<^verbatim>\<open>data()\<close> is null for no vector with elements.
\<close>

definition vector_ok :: "vector \<Rightarrow> bool" where
  "vector_ok v \<longleftrightarrow>
     unat (data v) + unat (size_v v) \<le> 2 ^ 64 \<and> (size_v v = 0 \<or> data v \<noteq> 0)"

definition elements :: "memory \<Rightarrow> vector \<Rightarrow> byte list" where
  "elements mem v = load mem (data v) (unat (size_v v))"

text \<open>
  \<^verbatim>\<open>(sizeof(args) + ...)\<close>, a unary right fold in \<^verbatim>\<open>size_t\<close>. Over an empty pack the fold
  is ill-formed, so \<^verbatim>\<open>writeToBuffer\<close> has no instance without arguments; the first
  equation is there for totality only.
\<close>

fun requiredSize :: "fval list \<Rightarrow> size_t" where
  "requiredSize [] = 0"
| "requiredSize (a # as) = sizeof a + requiredSize as"

definition writeToBuffer ::
  "memory \<Rightarrow> vector \<Rightarrow> size_t \<Rightarrow> fval list \<Rightarrow> (exn + size_t) \<times> memory" where
  "writeToBuffer mem buffer offset args =
     (if offset + requiredSize args > size_v buffer
      then (Inl (runtime_error ''Buffer too small for data''), mem)
      else (case writeToRawMemory mem (data buffer + offset) args of
              (Inl e, mem') \<Rightarrow> (Inl e, mem')
            | (Inr p, mem') \<Rightarrow> (Inr (offset + requiredSize args), mem')))"

section \<open>Sizes and layouts of argument packs\<close>

text \<open>The summed byte sizes of a pack as a natural number, and the bytes of a pack laid end to end.\<close>

definition total_size :: "fval list \<Rightarrow> nat" where
  "total_size args = sum_list (map (\<lambda>a. unat (sizeof a)) args)"

definition layout :: "fval list \<Rightarrow> byte list" where
  "layout args = concat (map object_bytes args)"

text \<open>
  Reading values back, by the types and widths they were written with: the inverse of
  \<open>object_bytes\<close> at each type, applied to consecutive runs of \<open>sizeof\<close> bytes.
\<close>

fun from_bytes :: "ftype \<Rightarrow> byte list \<Rightarrow> fval" where
  "from_bytes TBool bs = VBool (le_word bs \<noteq> (0 :: byte))"
| "from_bytes TChar bs = VChar (le_word bs)"
| "from_bytes TShort bs = VShort (le_word bs)"
| "from_bytes TInt bs = VInt (le_word bs)"
| "from_bytes TLong bs = VLong (le_word bs)"
| "from_bytes TFloat bs = VFloat (le_word bs)"
| "from_bytes TDouble bs = VDouble (le_word bs)"

fun read_back :: "ftype list \<Rightarrow> byte list \<Rightarrow> fval list" where
  "read_back [] bs = []"
| "read_back (t # ts) bs =
     from_bytes t (take (unat (sizeof_type t)) bs) # read_back ts (drop (unat (sizeof_type t)) bs)"

section \<open>Properties of the encoding\<close>

lemma length_le_bytes [simp]: "length (le_bytes n w) = n"
  by (induction n arbitrary: w) simp_all

lemma le_word_le_bytes: "le_word (le_bytes n w) = take_bit (8 * n) w"
proof (induction n arbitrary: w)
  case 0
  show ?case by simp
next
  case (Suc n)
  show ?case
    apply (simp add: Suc)
    apply (rule bit_eqI)
    apply (auto simp add: bit_simps)
    done
qed

lemma length_object_bytes: "length (object_bytes a) = unat (sizeof a)"
  by (cases a) (simp_all add: sizeof_def)

lemma sizeof_pos: "0 < unat (sizeof a)"
  by (cases a) (simp_all add: sizeof_def)

lemma from_bytes_object_bytes: "from_bytes (type_of a) (object_bytes a) = a"
proof (cases a)
  case (VBool b)
  then show ?thesis by simp
next
  case (VChar c)
  then show ?thesis by simp
next
  case (VShort w)
  have "take_bit 16 w = w" by (rule take_bit_length_eq [where 'a = 16, simplified])
  with VShort show ?thesis by (simp add: le_word_le_bytes)
next
  case (VInt w)
  have "take_bit 32 w = w" by (rule take_bit_length_eq [where 'a = 32, simplified])
  with VInt show ?thesis by (simp add: le_word_le_bytes)
next
  case (VLong w)
  have "take_bit 64 w = w" by (rule take_bit_length_eq [where 'a = 64, simplified])
  with VLong show ?thesis by (simp add: le_word_le_bytes)
next
  case (VFloat w)
  have "take_bit 32 w = w" by (rule take_bit_length_eq [where 'a = 32, simplified])
  with VFloat show ?thesis by (simp add: le_word_le_bytes)
next
  case (VDouble w)
  have "take_bit 64 w = w" by (rule take_bit_length_eq [where 'a = 64, simplified])
  with VDouble show ?thesis by (simp add: le_word_le_bytes)
qed

lemma length_layout: "length (layout args) = total_size args"
  by (induction args) (simp_all add: layout_def total_size_def length_object_bytes)

lemma read_back_layout: "read_back (map type_of args) (layout args) = args"
proof (induction args)
  case Nil
  show ?case by simp
next
  case (Cons a args)
  have l: "length (object_bytes a) = unat (sizeof_type (type_of a))"
    by (simp add: length_object_bytes sizeof_def)
  have "layout (a # args) = object_bytes a @ layout args"
    by (simp add: layout_def)
  with Cons l show ?case
    by (simp add: from_bytes_object_bytes)
qed

section \<open>Properties of the store and of the folds\<close>

lemma store_frame:
  "(\<And>i. i < length bs \<Longrightarrow> q \<noteq> p + of_nat i) \<Longrightarrow> store mem p bs q = mem q"
proof (induction bs arbitrary: mem p)
  case Nil
  show ?case by simp
next
  case (Cons b bs)
  have "q \<noteq> p" using Cons.prems [of 0] by simp
  moreover have "store (mem(p := b)) (p + 1) bs q = (mem(p := b)) q"
  proof (rule Cons.IH)
    fix i assume "i < length bs"
    then show "q \<noteq> p + 1 + of_nat i" using Cons.prems [of "Suc i"] by (simp add: add.assoc)
  qed
  ultimately show ?case by simp
qed

lemma of_nat_neq_0_64: "0 < k \<Longrightarrow> k < 2 ^ 64 \<Longrightarrow> (of_nat k :: 64 word) \<noteq> 0"
  by (simp add: word_of_nat_eq_0_iff dvd_def) (metis nat_dvd_not_less dvd_triv_left)

lemma store_nth:
  "i < length bs \<Longrightarrow> length bs \<le> 2 ^ 64 \<Longrightarrow> store mem p bs (p + of_nat i) = bs ! i"
proof (induction bs arbitrary: mem p i)
  case Nil
  then show ?case by simp
next
  case (Cons b bs)
  show ?case
  proof (cases i)
    case 0
    have "store (mem(p := b)) (p + 1) bs p = (mem(p := b)) p"
    proof (rule store_frame)
      fix j assume j: "j < length bs"
      with Cons.prems have "(of_nat (Suc j) :: 64 word) \<noteq> 0"
        by (intro of_nat_neq_0_64) simp_all
      then show "p \<noteq> p + 1 + of_nat j" by (simp add: add.assoc)
    qed
    with 0 show ?thesis by simp
  next
    case (Suc k)
    with Cons.prems have "store (mem(p := b)) (p + 1) bs (p + 1 + of_nat k) = bs ! k"
      by (intro Cons.IH) simp_all
    with Suc show ?thesis by (simp add: add.assoc)
  qed
qed

lemma load_store: "length bs \<le> 2 ^ 64 \<Longrightarrow> load (store mem p bs) p (length bs) = bs"
  by (rule nth_equalityI) (simp_all add: load_def store_nth)

lemma store_append:
  "store mem p (xs @ ys) = store (store mem p xs) (p + of_nat (length xs)) ys"
  by (induction xs arbitrary: mem p) (simp_all add: add.assoc)

lemma take_object_bytes: "take (unat (sizeof a)) (object_bytes a) = object_bytes a"
  by (simp add: length_object_bytes)

lemma copy_args_eq:
  "copy_args mem p args = (store mem p (layout args), p + of_nat (total_size args))"
proof (induction args arbitrary: mem p)
  case Nil
  show ?case by (simp add: layout_def total_size_def)
next
  case (Cons a args)
  have "layout (a # args) = object_bytes a @ layout args" by (simp add: layout_def)
  moreover have "total_size (a # args) = unat (sizeof a) + total_size args"
    by (simp add: total_size_def)
  ultimately show ?case
    by (simp add: Cons.IH memcpy_def take_object_bytes store_append length_object_bytes add.assoc)
qed

lemma requiredSize_eq: "requiredSize args = of_nat (total_size args)"
  by (induction args) (simp_all add: total_size_def)

lemma total_size_pos: "args \<noteq> [] \<Longrightarrow> 0 < total_size args"
  using sizeof_pos by (cases args) (simp_all add: total_size_def)

lemma write_args_open:
  "good os \<Longrightarrow> is_open os \<Longrightarrow> write_args os args = os\<lparr>contents := contents os @ layout args\<rparr>"
proof (induction args arbitrary: os)
  case Nil
  show ?case by (simp add: layout_def)
next
  case (Cons a args)
  let ?os = "os\<lparr>contents := contents os @ object_bytes a\<rparr>"
  have w: "ostream_write os (object_bytes a) (sizeof a) = ?os"
    using Cons.prems by (simp add: ostream_write_def take_object_bytes)
  have "good ?os" "is_open ?os" using Cons.prems by (simp_all add: good_def)
  then have "write_args ?os args = ?os\<lparr>contents := contents ?os @ layout args\<rparr>"
    by (rule Cons.IH)
  with w show ?case by (simp add: layout_def)
qed

lemma unat_offset_required:
  "unat offset + total_size args < 2 ^ 64 \<Longrightarrow>
     unat (offset + requiredSize args) = unat offset + total_size args"
  by (simp add: requiredSize_eq unat_word_ariths unat_of_nat)

lemma data_offset_nonnull:
  assumes "vector_ok v" and "offset < size_v v"
  shows "data v + offset \<noteq> 0"
proof -
  from assms(2) have lt: "unat offset < unat (size_v v)" by (simp add: word_less_nat_alt)
  then have "size_v v \<noteq> 0" by auto
  with assms(1) have d: "data v \<noteq> 0" and b: "unat (data v) + unat (size_v v) \<le> 2 ^ 64"
    by (simp_all add: vector_ok_def)
  from b lt have "unat (data v) + unat offset < 2 ^ 64" by simp
  then have "unat (data v + offset) = unat (data v) + unat offset"
    by (simp add: unat_add_lem [THEN iffD1])
  moreover from d have "0 < unat (data v)" by (simp add: unat_gt_0)
  ultimately have "0 < unat (data v + offset)" by simp
  then show ?thesis by (simp add: unat_gt_0)
qed

lemma writeToRawMemory_eq:
  "writeToRawMemory mem buffer args =
     (if buffer = 0 then (Inl (runtime_error ''Null buffer pointer''), mem)
      else (Inr (buffer + of_nat (total_size args)), store mem buffer (layout args)))"
  by (simp add: writeToRawMemory_def copy_args_eq)

lemma writeToBuffer_too_small:
  assumes "unat offset + total_size args < 2 ^ 64"
    and "unat (size_v buffer) < unat offset + total_size args"
  shows "writeToBuffer mem buffer offset args = (Inl (runtime_error ''Buffer too small for data''), mem)"
proof -
  from assms have "size_v buffer < offset + requiredSize args"
    by (simp add: word_less_nat_alt unat_offset_required)
  then show ?thesis by (simp add: writeToBuffer_def)
qed

lemma writeToBuffer_writes:
  assumes "vector_ok buffer" and "args \<noteq> []"
    and "unat offset + total_size args \<le> unat (size_v buffer)"
  shows "writeToBuffer mem buffer offset args =
     (Inr (offset + requiredSize args), store mem (data buffer + offset) (layout args))"
proof -
  have s: "unat (size_v buffer) < 2 ^ 64" using unsigned_less [of "size_v buffer"] by simp
  with assms(3) have u: "unat (offset + requiredSize args) = unat offset + total_size args"
    by (intro unat_offset_required) simp
  with assms(3) have le: "\<not> size_v buffer < offset + requiredSize args"
    by (simp add: word_less_nat_alt)
  from assms(2) have "0 < total_size args" by (rule total_size_pos)
  with assms(3) have "offset < size_v buffer" by (simp add: word_less_nat_alt)
  with assms(1) have "data buffer + offset \<noteq> 0" by (rule data_offset_nonnull)
  with le show ?thesis by (simp add: writeToBuffer_def writeToRawMemory_eq)
qed

lemma fail_write_args: "fail os \<Longrightarrow> fail (write_args os args)"
proof (induction args arbitrary: os)
  case Nil
  then show ?case by simp
next
  case (Cons a args)
  from Cons.prems have "fail (ostream_write os (object_bytes a) (sizeof a))"
    by (simp add: ostream_write_def fail_def good_def)
  then show ?case by (simp add: Cons.IH)
qed

lemma write_args_contents:
  assumes "\<not> fail (write_args os args)"
  shows "contents (write_args os args) = contents os @ layout args"
proof (cases args)
  case Nil
  then show ?thesis by (simp add: layout_def)
next
  case (Cons a as)
  show ?thesis
  proof (cases "good os \<and> is_open os")
    case True
    then show ?thesis by (simp add: write_args_open)
  next
    case False
    then have "fail (ostream_write os (object_bytes a) (sizeof a))"
      by (auto simp add: ostream_write_def fail_def)
    then have "fail (write_args os args)" using Cons by (simp add: fail_write_args)
    with assms show ?thesis by simp
  qed
qed

lemma of_nat_inj_64:
  assumes "i < 2 ^ 64" and "j < 2 ^ 64" and "(of_nat i :: 64 word) = of_nat j"
  shows "i = j"
proof -
  from assms(3) have "unat (of_nat i :: 64 word) = unat (of_nat j :: 64 word)" by simp
  with assms(1,2) show ?thesis by (simp add: unat_of_nat)
qed

lemma store_inside:
  assumes "unat offset + length bs \<le> unat (size_v v)"
    and "unat offset \<le> i" and "i < unat offset + length bs"
  shows "store mem (data v + offset) bs (data v + of_nat i) = bs ! (i - unat offset)"
proof -
  have s: "unat (size_v v) < 2 ^ 64" using unsigned_less [of "size_v v"] by simp
  have "(of_nat i :: 64 word) = offset + of_nat (i - unat offset)"
  proof -
    have "(of_nat i :: 64 word) = of_nat (unat offset + (i - unat offset))"
      using assms(2) by simp
    then show ?thesis by (simp only: of_nat_add of_nat_unat ucast_id)
  qed
  then have "data v + of_nat i = data v + offset + of_nat (i - unat offset)"
    by (simp only: add.assoc)
  moreover have "store mem (data v + offset) bs (data v + offset + of_nat (i - unat offset))
      = bs ! (i - unat offset)"
    using assms s by (intro store_nth) simp_all
  ultimately show ?thesis by (simp only:)
qed

lemma store_outside:
  assumes "unat offset + length bs \<le> unat (size_v v)"
    and "i < unat (size_v v)" and "i < unat offset \<or> unat offset + length bs \<le> i"
  shows "store mem (data v + offset) bs (data v + of_nat i) = mem (data v + of_nat i)"
proof (rule store_frame)
  fix j assume j: "j < length bs"
  have s: "unat (size_v v) < 2 ^ 64" using unsigned_less [of "size_v v"] by simp
  have "(of_nat i :: 64 word) \<noteq> of_nat (unat offset + j)"
  proof
    assume "(of_nat i :: 64 word) = of_nat (unat offset + j)"
    moreover have "i < 2 ^ 64" "unat offset + j < 2 ^ 64" using assms j s by simp_all
    ultimately have "i = unat offset + j" by (intro of_nat_inj_64)
    with assms(3) j show False by simp
  qed
  then have "(of_nat i :: 64 word) \<noteq> offset + of_nat j" by simp
  then show "data v + of_nat i \<noteq> data v + offset + of_nat j" by (simp add: add.assoc)
qed

lemma elements_store:
  assumes "unat offset + length bs \<le> unat (size_v v)"
  shows "elements (store mem (data v + offset) bs) v =
     take (unat offset) (elements mem v) @ bs @ drop (unat offset + length bs) (elements mem v)"
proof (rule nth_equalityI)
  show "length (elements (store mem (data v + offset) bs) v) =
      length (take (unat offset) (elements mem v) @ bs @ drop (unat offset + length bs) (elements mem v))"
    using assms by (simp add: elements_def load_def)
next
  fix i assume "i < length (elements (store mem (data v + offset) bs) v)"
  then have i: "i < unat (size_v v)" by (simp add: elements_def load_def)
  consider "i < unat offset" | "unat offset \<le> i" "i < unat offset + length bs"
    | "unat offset + length bs \<le> i" by linarith
  then show "elements (store mem (data v + offset) bs) v ! i =
      (take (unat offset) (elements mem v) @ bs @ drop (unat offset + length bs) (elements mem v)) ! i"
  proof cases
    case 1
    with assms i show ?thesis
      by (simp add: elements_def load_def nth_append store_outside)
  next
    case 2
    then have "i - unat offset < length bs" by linarith
    with 2 assms i show ?thesis
      by (simp add: elements_def load_def nth_append store_inside)
  next
    case 3
    with assms i have "store mem (data v + offset) bs (data v + of_nat i) = mem (data v + of_nat i)"
      by (intro store_outside) simp_all
    moreover have "unat offset + length bs + (i - unat offset - length bs) = i" using 3 by simp
    moreover have "\<not> i - unat offset < length bs" using 3 by linarith
    ultimately show ?thesis using assms i 3
      by (simp add: elements_def load_def nth_append min_def)
  qed
qed

section \<open>The raw-memory writer\<close>

text \<open>
  Claim C6. Called with a null destination pointer, \<^verbatim>\<open>writeToRawMemory\<close> throws the
  \<^verbatim>\<open>InvalidDestination\<close> error ``Null buffer pointer'' whatever the values are, and the
  memory it leaves is the memory it was given: the check comes before the first copy.
\<close>

theorem writeToRawMemory_null_pointer:
  "writeToRawMemory mem 0 args = (Inl (runtime_error ''Null buffer pointer''), mem)
   \<and> InvalidDestination (runtime_error ''Null buffer pointer'')"
  by (simp add: writeToRawMemory_def InvalidDestination_def)

text \<open>
  Claim C5. Called with a non-null destination pointer, \<^verbatim>\<open>writeToRawMemory\<close> returns the
  destination address plus the summed byte sizes of the values; the bytes from the
  destination on are then the object representations of the values in argument order
  (for a pack that fits the address space, so that no copy overwrites an earlier one),
  and every address outside that range keeps its byte.
\<close>

theorem writeToRawMemory_copies_in_order:
  assumes "buffer \<noteq> 0"
  shows "fst (writeToRawMemory mem buffer args) = Inr (buffer + of_nat (total_size args))
    \<and> (total_size args \<le> 2 ^ 64 \<longrightarrow>
         load (snd (writeToRawMemory mem buffer args)) buffer (total_size args) = layout args)
    \<and> (\<forall>q. (\<forall>i<total_size args. q \<noteq> buffer + of_nat i) \<longrightarrow>
         snd (writeToRawMemory mem buffer args) q = mem q)"
proof -
  have w: "writeToRawMemory mem buffer args =
      (Inr (buffer + of_nat (total_size args)), store mem buffer (layout args))"
    using assms by (simp add: writeToRawMemory_eq)
  have "load (store mem buffer (layout args)) buffer (length (layout args)) = layout args"
    if "total_size args \<le> 2 ^ 64"
    using that by (intro load_store) (simp add: length_layout)
  moreover have "store mem buffer (layout args) q = mem q"
    if "\<forall>i<total_size args. q \<noteq> buffer + of_nat i" for q
    using that by (intro store_frame) (simp add: length_layout)
  ultimately show ?thesis by (simp add: w length_layout)
qed

theorem writeToRawMemory_copies_in_order_witness:
  "(4096 :: ptr) \<noteq> 0 \<and> total_size [VInt 42, VFloat 0x4048F5C3] \<le> 2 ^ 64
   \<and> fst (writeToRawMemory (\<lambda>_. 0) 4096 [VInt 42, VFloat 0x4048F5C3]) = Inr 4104
   \<and> load (snd (writeToRawMemory (\<lambda>_. 0) 4096 [VInt 42, VFloat 0x4048F5C3])) 4096 8
       = [42, 0, 0, 0, 0xC3, 0xF5, 0x48, 0x40]
   \<and> snd (writeToRawMemory (\<lambda>_. 0) 4096 [VInt 42, VFloat 0x4048F5C3]) 4104 = 0"
proof -
  have n: "(4096 :: ptr) \<noteq> 0" by simp
  have t: "total_size [VInt 42, VFloat 0x4048F5C3] = 8" by (simp add: total_size_def sizeof_def)
  have l: "layout [VInt 42, VFloat 0x4048F5C3] = [42, 0, 0, 0, 0xC3, 0xF5, 0x48, 0x40]"
    unfolding layout_def by code_simp
  have q: "\<forall>i<8. (4104 :: ptr) \<noteq> 4096 + of_nat i"
  proof (intro allI impI)
    fix i :: nat assume "i < 8"
    then have "unat (4096 + of_nat i :: ptr) = 4096 + i"
      by (simp add: unat_word_ariths unat_of_nat)
    with \<open>i < 8\<close> have "unat (4096 + of_nat i :: ptr) \<noteq> unat (4104 :: ptr)" by simp
    then show "(4104 :: ptr) \<noteq> 4096 + of_nat i" by metis
  qed
  show ?thesis
    using writeToRawMemory_copies_in_order [OF n, of "\<lambda>_. 0" "[VInt 42, VFloat 0x4048F5C3]"] q
    by (simp add: t l)
qed

section \<open>The buffer writer\<close>

text \<open>
  Claim C1. For a buffer, an offset no greater than its length and a non-empty pack
  (buffer and pack being objects of one address space, their sizes sum to less than
  \<open>2 ^ 64\<close>): when the offset plus the summed byte sizes exceeds the buffer's length,
  \<^verbatim>\<open>writeToBuffer\<close> throws the \<^verbatim>\<open>CapacityExceeded\<close> error ``Buffer too small for data''
  and leaves the memory, hence the buffer's elements, as they were. At the boundary, a
  write of length minus offset plus one bytes fails so, and a write of exactly length
  minus offset bytes returns normally.
\<close>

theorem writeToBuffer_capacity_exceeded:
  assumes "vector_ok buffer" and "offset \<le> size_v buffer" and "args \<noteq> []"
    and "unat (size_v buffer) + total_size args < 2 ^ 64"
  shows "(unat (size_v buffer) < unat offset + total_size args \<longrightarrow>
            writeToBuffer mem buffer offset args
              = (Inl (runtime_error ''Buffer too small for data''), mem)
            \<and> elements (snd (writeToBuffer mem buffer offset args)) buffer = elements mem buffer)
    \<and> (total_size args = unat (size_v buffer) - unat offset + 1 \<longrightarrow>
            writeToBuffer mem buffer offset args
              = (Inl (runtime_error ''Buffer too small for data''), mem))
    \<and> (total_size args = unat (size_v buffer) - unat offset \<longrightarrow>
            fst (writeToBuffer mem buffer offset args) = Inr (size_v buffer))
    \<and> CapacityExceeded (runtime_error ''Buffer too small for data'')"
proof -
  from assms(2) have le: "unat offset \<le> unat (size_v buffer)" by (simp add: word_le_nat_alt)
  with assms(4) have nowrap: "unat offset + total_size args < 2 ^ 64" by simp
  have over: "writeToBuffer mem buffer offset args
      = (Inl (runtime_error ''Buffer too small for data''), mem)"
    if "unat (size_v buffer) < unat offset + total_size args"
    using nowrap that by (rule writeToBuffer_too_small)
  have exact: "fst (writeToBuffer mem buffer offset args) = Inr (size_v buffer)"
    if t: "total_size args = unat (size_v buffer) - unat offset"
  proof -
    from t le have s: "unat offset + total_size args = unat (size_v buffer)" by simp
    then have "unat (offset + requiredSize args) = unat (size_v buffer)"
      using nowrap by (simp add: unat_offset_required)
    then have "offset + requiredSize args = size_v buffer" by (rule word_unat_eq_iff [THEN iffD2])
    moreover have "writeToBuffer mem buffer offset args =
        (Inr (offset + requiredSize args), store mem (data buffer + offset) (layout args))"
      using assms(1,3) s by (intro writeToBuffer_writes) simp_all
    ultimately show ?thesis by simp
  qed
  have plus1: "unat (size_v buffer) < unat offset + total_size args"
    if "total_size args = unat (size_v buffer) - unat offset + 1"
    using that le by simp
  show ?thesis
    using over exact plus1 by (simp add: CapacityExceeded_def)
qed

theorem writeToBuffer_capacity_exceeded_witness:
  "vector_ok \<lparr>data = 4096, size_v = 10\<rparr> \<and> (7 :: size_t) \<le> 10 \<and> (6 :: size_t) \<le> 10
   \<and> [VInt 42] \<noteq> [] \<and> unat (10 :: size_t) + total_size [VInt 42] < 2 ^ 64
   \<and> unat (10 :: size_t) < unat (7 :: size_t) + total_size [VInt 42]
   \<and> total_size [VInt 42] = unat (10 :: size_t) - unat (7 :: size_t) + 1
   \<and> total_size [VInt 42] = unat (10 :: size_t) - unat (6 :: size_t)
   \<and> writeToBuffer (\<lambda>_. 0) \<lparr>data = 4096, size_v = 10\<rparr> 7 [VInt 42]
        = (Inl (runtime_error ''Buffer too small for data''), \<lambda>_. 0)
   \<and> fst (writeToBuffer (\<lambda>_. 0) \<lparr>data = 4096, size_v = 10\<rparr> 6 [VInt 42]) = Inr 10"
proof -
  have v: "vector_ok \<lparr>data = 4096, size_v = 10\<rparr>" by (simp add: vector_ok_def)
  have t: "total_size [VInt 42] = 4" by (simp add: total_size_def sizeof_def)
  have a: "(7 :: size_t) \<le> size_v \<lparr>data = 4096, size_v = 10\<rparr>"
    and b: "(6 :: size_t) \<le> size_v \<lparr>data = 4096, size_v = 10\<rparr>"
    and n: "[VInt 42] \<noteq> []"
    and f: "unat (size_v \<lparr>data = 4096, size_v = 10\<rparr>) + total_size [VInt 42] < 2 ^ 64"
    by (simp_all add: t)
  show ?thesis
    using writeToBuffer_capacity_exceeded [OF v a n f, of "\<lambda>_. 0"]
      writeToBuffer_capacity_exceeded [OF v b n f, of "\<lambda>_. 0"] v
    by (simp add: t)
qed

text \<open>
  Claim C3. For a buffer, an offset no greater than its length and a non-empty pack that
  fits (offset plus summed byte sizes at most the length), \<^verbatim>\<open>writeToBuffer\<close> returns
  normally; the value returned is the offset plus the summed byte sizes, without
  wrap-around, and is at most the buffer's length.
\<close>

theorem writeToBuffer_new_offset:
  assumes "vector_ok buffer" and "offset \<le> size_v buffer" and "args \<noteq> []"
    and "unat offset + total_size args \<le> unat (size_v buffer)"
  shows "fst (writeToBuffer mem buffer offset args) = Inr (offset + requiredSize args)
    \<and> unat (offset + requiredSize args) = unat offset + total_size args
    \<and> offset + requiredSize args \<le> size_v buffer"
proof -
  have "unat (size_v buffer) < 2 ^ 64" using unsigned_less [of "size_v buffer"] by simp
  with assms(4) have u: "unat (offset + requiredSize args) = unat offset + total_size args"
    by (intro unat_offset_required) simp
  with assms(4) have "offset + requiredSize args \<le> size_v buffer"
    by (simp add: word_le_nat_alt)
  moreover have "writeToBuffer mem buffer offset args =
      (Inr (offset + requiredSize args), store mem (data buffer + offset) (layout args))"
    using assms(1,3,4) by (rule writeToBuffer_writes)
  ultimately show ?thesis using u by simp
qed

theorem writeToBuffer_new_offset_witness:
  "vector_ok \<lparr>data = 4096, size_v = 10\<rparr> \<and> (0 :: size_t) \<le> 10
   \<and> [VInt 42, VFloat 0x4048F5C3] \<noteq> []
   \<and> unat (0 :: size_t) + total_size [VInt 42, VFloat 0x4048F5C3] \<le> unat (10 :: size_t)
   \<and> fst (writeToBuffer (\<lambda>_. 0) \<lparr>data = 4096, size_v = 10\<rparr> 0 [VInt 42, VFloat 0x4048F5C3])
        = Inr 8
   \<and> (8 :: size_t) \<le> 10"
proof -
  have v: "vector_ok \<lparr>data = 4096, size_v = 10\<rparr>" by (simp add: vector_ok_def)
  have t: "total_size [VInt 42, VFloat 0x4048F5C3] = 8" by (simp add: total_size_def sizeof_def)
  have a: "(0 :: size_t) \<le> size_v \<lparr>data = 4096, size_v = 10\<rparr>"
    and n: "[VInt 42, VFloat 0x4048F5C3] \<noteq> []"
    and f: "unat (0 :: size_t) + total_size [VInt 42, VFloat 0x4048F5C3]
              \<le> unat (size_v \<lparr>data = 4096, size_v = 10\<rparr>)"
    by (simp_all add: t)
  show ?thesis
    using writeToBuffer_new_offset [OF v a n f, of "\<lambda>_. 0"] v
    by (simp add: t sizeof_def)
qed

text \<open>
  Claim C9. The capacity comparison is made in \<^verbatim>\<open>size_t\<close>, modulo \<open>2 ^ 64\<close>. For a
  16-byte buffer at address 4096 and the offset \<open>2 ^ 64 - 4\<close>, far beyond the buffer's
  length, writing one 4-byte value makes the sum wrap to 0: no \<^verbatim>\<open>CapacityExceeded\<close> is
  thrown, the four bytes are stored in front of the buffer, at addresses 4092 to 4095,
  and 0 is returned.
\<close>

theorem writeToBuffer_offset_wraps:
  "vector_ok \<lparr>data = 4096, size_v = 16\<rparr>
   \<and> (0xFFFFFFFFFFFFFFFC :: size_t) > size_v \<lparr>data = 4096, size_v = 16\<rparr>
   \<and> unat (0xFFFFFFFFFFFFFFFC :: size_t) + total_size [VInt 42]
        > unat (size_v \<lparr>data = 4096, size_v = 16\<rparr>)
   \<and> (0xFFFFFFFFFFFFFFFC :: size_t) + requiredSize [VInt 42] = 0
   \<and> writeToBuffer mem \<lparr>data = 4096, size_v = 16\<rparr> 0xFFFFFFFFFFFFFFFC [VInt 42]
        = (Inr 0, store mem 4092 [42, 0, 0, 0])"
proof -
  have l: "layout [VInt 42] = [42, 0, 0, 0]"
    unfolding layout_def by code_simp
  have t: "total_size [VInt 42] = 4" by (simp add: total_size_def sizeof_def)
  have p: "(18446744073709555708 :: ptr) = 4092" by code_simp
  have z: "(18446744073709551616 :: size_t) = 0" by code_simp
  have w: "writeToRawMemory mem 4092 [VInt 42] = (Inr 4096, store mem 4092 [42, 0, 0, 0])"
    by (simp add: writeToRawMemory_eq l t)
  show ?thesis
    by (simp add: vector_ok_def t writeToBuffer_def sizeof_def p z w del: store.simps)
qed

theorem writeToBuffer_offset_wraps_witness:
  "fst (writeToBuffer (\<lambda>_. 0) \<lparr>data = 4096, size_v = 16\<rparr> 0xFFFFFFFFFFFFFFFC [VInt 42]) = Inr 0
   \<and> load (snd (writeToBuffer (\<lambda>_. 0) \<lparr>data = 4096, size_v = 16\<rparr> 0xFFFFFFFFFFFFFFFC [VInt 42]))
         4092 4 = [42, 0, 0, 0]
   \<and> elements (snd (writeToBuffer (\<lambda>_. 0) \<lparr>data = 4096, size_v = 16\<rparr> 0xFFFFFFFFFFFFFFFC [VInt 42]))
         \<lparr>data = 4096, size_v = 16\<rparr> = replicate 16 0"
proof -
  have "load (store (\<lambda>_. 0) 4092 [42, 0, 0, 0]) 4092 4 = [42, 0, 0, 0 :: byte]"
    by code_simp
  moreover have "elements (store (\<lambda>_. 0) 4092 [42, 0, 0, 0]) \<lparr>data = 4096, size_v = 16\<rparr>
      = replicate 16 0"
    by code_simp
  ultimately show ?thesis
    using writeToBuffer_offset_wraps [of "\<lambda>_. 0"] by (simp del: store.simps)
qed







text \<open>
  Beyond the buffer's length the check passing does not mean that the buffer has elements:
  the wrap-around of claim C9 lets it pass on an empty vector whose \<^verbatim>\<open>data()\<close> is null.
  With the offset \<open>2 ^ 64 - 1\<close> and one 1-byte value the sum is 0; the pointer handed on
  is not null, nothing is thrown, and the byte is stored at the last address of the
  address space.
\<close>

lemma writeToBuffer_empty_vector_passes_check:
  "writeToBuffer mem \<lparr>data = 0, size_v = 0\<rparr> 0xFFFFFFFFFFFFFFFF [VChar c]
     = (Inr 0, mem(0xFFFFFFFFFFFFFFFF := c))"
proof -
  have z: "(0xFFFFFFFFFFFFFFFF :: size_t) + requiredSize [VChar c] = 0"
    by (simp add: sizeof_def)
  have n: "(0 :: ptr) + 0xFFFFFFFFFFFFFFFF \<noteq> 0" by simp
  have w: "writeToRawMemory mem (0 + 0xFFFFFFFFFFFFFFFF) [VChar c]
      = (Inr (0 + 0xFFFFFFFFFFFFFFFF + 1), mem(0xFFFFFFFFFFFFFFFF := c))"
    using n by (simp add: writeToRawMemory_def memcpy_def sizeof_def)
  show ?thesis
    unfolding writeToBuffer_def by (simp only: vector.simps z w) simp
qed

text \<open>
  The hypothesis on the address is needed in a flat address space: were an 8-byte buffer
  stored at address 8, the offset \<open>2 ^ 64 - 8\<close> and two 8-byte values would make the sum
  wrap to 8, the capacity check pass and \<^verbatim>\<open>buffer.data() + offset\<close> be the null pointer.
  No allocation is at such an address.
\<close>

lemma writeToBuffer_low_address_null_pointer:
  "[VDouble 0, VDouble 0] \<noteq> []
   \<and> (0xFFFFFFFFFFFFFFF8 :: size_t) + requiredSize [VDouble 0, VDouble 0] = 8
   \<and> data \<lparr>data = 8, size_v = 8\<rparr> + (0xFFFFFFFFFFFFFFF8 :: size_t) = 0
   \<and> writeToBuffer mem \<lparr>data = 8, size_v = 8\<rparr> 0xFFFFFFFFFFFFFFF8 [VDouble 0, VDouble 0]
        = (Inl (runtime_error ''Null buffer pointer''), mem)
   \<and> InvalidDestination (runtime_error ''Null buffer pointer'')"
proof -
  have c: "(0xFFFFFFFFFFFFFFF8 :: size_t) + requiredSize [VDouble 0, VDouble 0] = 8"
    by code_simp
  have d: "(8 :: ptr) + 0xFFFFFFFFFFFFFFF8 = 0" by code_simp
  have w: "writeToBuffer mem \<lparr>data = 8, size_v = 8\<rparr> 0xFFFFFFFFFFFFFFF8 [VDouble 0, VDouble 0]
      = (Inl (runtime_error ''Null buffer pointer''), mem)"
    unfolding writeToBuffer_def writeToRawMemory_def
    by (simp only: vector.simps c d) simp
  show ?thesis
    unfolding w by (simp only: vector.simps c d) (simp add: InvalidDestination_def)
qed

text \<open>
  With the offset inside the buffer the null check cannot fire: the only error then is
  \<^verbatim>\<open>CapacityExceeded\<close>.
\<close>

lemma writeToBuffer_in_range_error:
  assumes "vector_ok buffer" and "offset \<le> size_v buffer" and "args \<noteq> []"
    and "unat (size_v buffer) + total_size args < 2 ^ 64"
    and "fst (writeToBuffer mem buffer offset args) = Inl e"
  shows "CapacityExceeded e"
proof (cases "unat (size_v buffer) < unat offset + total_size args")
  case True
  from assms(2) have "unat offset \<le> unat (size_v buffer)" by (simp add: word_le_nat_alt)
  with assms(4) have "unat offset + total_size args < 2 ^ 64" by simp
  then have "writeToBuffer mem buffer offset args
      = (Inl (runtime_error ''Buffer too small for data''), mem)"
    using True by (rule writeToBuffer_too_small)
  with assms(5) show ?thesis by (simp add: CapacityExceeded_def)
next
  case False
  then have "unat offset + total_size args \<le> unat (size_v buffer)" by simp
  with assms(1,3) have "writeToBuffer mem buffer offset args =
      (Inr (offset + requiredSize args), store mem (data buffer + offset) (layout args))"
    by (rule writeToBuffer_writes)
  with assms(5) show ?thesis by simp
qed

section \<open>The stream writer\<close>

lemma writeToFile_failed_stream:
  "fail (\<sigma> file) \<Longrightarrow>
     writeToFile \<sigma> file args = (Inl (runtime_error ''File stream is not open''), \<sigma>)"
  by (simp add: writeToFile_def)

lemma write_args_not_open:
  "\<not> is_open os \<Longrightarrow>
     contents (write_args os args) = contents os \<and> \<not> is_open (write_args os args)"
  by (induction args arbitrary: os) (simp_all add: ostream_write_def)

lemma writeToFile_appends_nothing_unless_open:
  "\<not> is_open (\<sigma> file) \<Longrightarrow>
     contents (snd (writeToFile \<sigma> file args) file) = contents (\<sigma> file)"
  by (simp add: writeToFile_def write_args_not_open)

lemma writeToFile_success_contents:
  assumes "fst (writeToFile \<sigma> file args) = Inr r"
    and "good (snd (writeToFile \<sigma> file args) file)"
  shows "r = file \<and>
    contents (snd (writeToFile \<sigma> file args) file) = contents (\<sigma> file) @ layout args"
proof -
  from assms(1) have nf: "\<not> fail (\<sigma> file)"
    by (auto simp add: writeToFile_def split: if_splits)
  then have w: "writeToFile \<sigma> file args = (Inr file, \<sigma>(file := write_args (\<sigma> file) args))"
    by (simp add: writeToFile_def)
  with assms(2) have "\<not> fail (write_args (\<sigma> file) args)" by (simp add: good_def fail_def)
  then have "contents (write_args (\<sigma> file) args) = contents (\<sigma> file) @ layout args"
    by (rule write_args_contents)
  with w assms(1) show ?thesis by simp
qed

lemma writeToFile_open_good:
  assumes "is_open (\<sigma> file)" and "good (\<sigma> file)"
  shows "writeToFile \<sigma> file args =
    (Inr file, \<sigma>(file := (\<sigma> file)\<lparr>contents := contents (\<sigma> file) @ layout args\<rparr>))"
proof -
  from assms(2) have "\<not> fail (\<sigma> file)" by (simp add: good_def fail_def)
  with assms show ?thesis by (simp add: writeToFile_def write_args_open)
qed

text \<open>
  Claim C2 says that the stream writer throws \<^verbatim>\<open>InvalidDestination\<close> on a stream that is
  not open. The check \<^verbatim>\<open>if (!file)\<close> tests \<^verbatim>\<open>fail()\<close>, not \<^verbatim>\<open>is_open()\<close>: on a
  default-constructed stream, which is not open and has no state flag set, nothing is
  thrown; the \<^verbatim>\<open>write\<close> fails and sets \<^verbatim>\<open>badbit\<close>, no byte is appended, and the
  function returns the stream.
\<close>

theorem writeToFile_unopened_stream_returns:
  "\<not> is_open \<lparr>is_open = False, eofbit = False, failbit = False, badbit = False, contents = []\<rparr>
   \<and> writeToFile
        (\<lambda>_. \<lparr>is_open = False, eofbit = False, failbit = False, badbit = False, contents = []\<rparr>)
        0 [VInt 42]
      = (Inr 0,
         (\<lambda>_. \<lparr>is_open = False, eofbit = False, failbit = False, badbit = False, contents = []\<rparr>)
           (0 := \<lparr>is_open = False, eofbit = False, failbit = False, badbit = True, contents = []\<rparr>))"
  by (simp add: writeToFile_def fail_def good_def ostream_write_def)

section \<open>Calls without values\<close>

text \<open>
  With an empty pack both folds do nothing and the checks are made all the same:
  \<^verbatim>\<open>writeToRawMemory\<close> returns a non-null pointer as it is, with the memory unchanged, and
  throws on the null pointer; \<^verbatim>\<open>writeToFile\<close> returns the same reference, with the stream
  store unchanged, when neither \<^verbatim>\<open>failbit\<close> nor \<^verbatim>\<open>badbit\<close> is set, and throws when one is.
\<close>

lemma writers_without_values:
  "(buffer \<noteq> 0 \<longrightarrow> writeToRawMemory mem buffer [] = (Inr buffer, mem))
   \<and> writeToRawMemory mem 0 [] = (Inl (runtime_error ''Null buffer pointer''), mem)
   \<and> (\<not> fail (\<sigma> file) \<longrightarrow> writeToFile \<sigma> file [] = (Inr file, \<sigma>))
   \<and> (fail (\<sigma> file) \<longrightarrow>
         writeToFile \<sigma> file [] = (Inl (runtime_error ''File stream is not open''), \<sigma>))
   \<and> InvalidDestination (runtime_error ''Null buffer pointer'')
   \<and> InvalidDestination (runtime_error ''File stream is not open'')"
  by (simp add: writeToRawMemory_def writeToFile_def InvalidDestination_def)

text \<open>
  Claim C10 says that without values, too, the destination is checked and an unusable
  stream makes \<^verbatim>\<open>writeToFile\<close> throw \<^verbatim>\<open>InvalidDestination\<close>. The check \<^verbatim>\<open>if (!file)\<close>
  tests \<^verbatim>\<open>fail()\<close>, not \<^verbatim>\<open>is_open()\<close>: called without values on a default-constructed
  stream, which is not open and has no state flag set, the function throws nothing and
  returns the stream, left as it was.
\<close>

theorem writeToFile_unopened_stream_no_values:
  "\<not> is_open \<lparr>is_open = False, eofbit = False, failbit = False, badbit = False, contents = []\<rparr>
   \<and> writeToFile
        (\<lambda>_. \<lparr>is_open = False, eofbit = False, failbit = False, badbit = False, contents = []\<rparr>)
        0 []
      = (Inr 0,
         \<lambda>_. \<lparr>is_open = False, eofbit = False, failbit = False, badbit = False, contents = []\<rparr>)"
  by (simp add: writeToFile_def fail_def fun_eq_iff)

section \<open>Byte layout and round trip\<close>

lemma read_back_layout_append:
  "read_back (map type_of args) (layout args @ rest) = args"
proof (induction args)
  case Nil
  show ?case by simp
next
  case (Cons a args)
  have l: "length (object_bytes a) = unat (sizeof_type (type_of a))"
    by (simp add: length_object_bytes sizeof_def)
  have "layout (a # args) @ rest = object_bytes a @ (layout args @ rest)"
    by (simp add: layout_def)
  with Cons l show ?case
    by (simp add: from_bytes_object_bytes)
qed

lemma writeToBuffer_load:
  assumes "fst (writeToBuffer mem v offset args) = Inr n" and "total_size args \<le> 2 ^ 64"
  shows "load (snd (writeToBuffer mem v offset args)) (data v + offset) (total_size args)
    = layout args"
proof -
  from assms(1) have "snd (writeToBuffer mem v offset args)
      = store mem (data v + offset) (layout args)"
    by (auto simp add: writeToBuffer_def writeToRawMemory_eq split: if_splits)
  moreover have "load (store mem (data v + offset) (layout args)) (data v + offset)
      (length (layout args)) = layout args"
    using assms(2) by (intro load_store) (simp add: length_layout)
  ultimately show ?thesis by (simp add: length_layout)
qed

lemma writeToBuffer_elements:
  assumes "vector_ok v" and "args \<noteq> []"
    and "unat offset + total_size args \<le> unat (size_v v)"
  shows "elements (snd (writeToBuffer mem v offset args)) v =
     take (unat offset) (elements mem v) @ layout args
       @ drop (unat offset + total_size args) (elements mem v)"
proof -
  have "writeToBuffer mem v offset args =
      (Inr (offset + requiredSize args), store mem (data v + offset) (layout args))"
    using assms by (rule writeToBuffer_writes)
  moreover have "elements (store mem (data v + offset) (layout args)) v =
     take (unat offset) (elements mem v) @ layout args
       @ drop (unat offset + length (layout args)) (elements mem v)"
    using assms(3) by (intro elements_store) (simp add: length_layout)
  ultimately show ?thesis by (simp add: length_layout)
qed

lemma length_elements: "length (elements mem v) = unat (size_v v)"
  by (simp add: elements_def load_def)

text \<open>
  Claim C7. The bytes a successful write produces are the object representations of the
  values in argument order, laid end to end with nothing before, between or after them,
  and they are as many as the summed \<^verbatim>\<open>sizeof\<close> of the values. In raw memory they stand
  from the destination address on; in a buffer they stand at the destination
  \<^verbatim>\<open>data() + offset\<close>, and for a write in range they replace the elements from \<open>offset\<close>
  on while all other elements stay; in a stream (the call returned and the stream is
  \<^verbatim>\<open>good()\<close> afterwards) they are appended to what the stream held.
\<close>

theorem written_bytes_are_concatenation:
  "length (concat (map object_bytes args)) = sum_list (map (\<lambda>a. unat (sizeof a)) args)
   \<and> (buffer \<noteq> 0 \<and> total_size args \<le> 2 ^ 64 \<longrightarrow>
        load (snd (writeToRawMemory mem buffer args)) buffer (total_size args)
          = concat (map object_bytes args))
   \<and> ((\<exists>n. fst (writeToBuffer mem v offset args) = Inr n) \<and> total_size args \<le> 2 ^ 64 \<longrightarrow>
        load (snd (writeToBuffer mem v offset args)) (data v + offset) (total_size args)
          = concat (map object_bytes args))
   \<and> (vector_ok v \<and> args \<noteq> [] \<and> unat offset + total_size args \<le> unat (size_v v) \<longrightarrow>
        elements (snd (writeToBuffer mem v offset args)) v
          = take (unat offset) (elements mem v) @ concat (map object_bytes args)
              @ drop (unat offset + total_size args) (elements mem v))
   \<and> ((\<exists>r. fst (writeToFile \<sigma> file args) = Inr r) \<and> good (snd (writeToFile \<sigma> file args) file) \<longrightarrow>
        contents (snd (writeToFile \<sigma> file args) file)
          = contents (\<sigma> file) @ concat (map object_bytes args))"
proof -
  have 1: "length (concat (map object_bytes args)) = sum_list (map (\<lambda>a. unat (sizeof a)) args)"
    using length_layout [of args] by (simp only: layout_def total_size_def)
  have 2: "load (snd (writeToRawMemory mem buffer args)) buffer (total_size args) = layout args"
    if "buffer \<noteq> 0" "total_size args \<le> 2 ^ 64"
  proof -
    have "load (store mem buffer (layout args)) buffer (length (layout args)) = layout args"
      using that(2) by (intro load_store) (simp add: length_layout)
    with that(1) show ?thesis by (simp add: writeToRawMemory_eq length_layout)
  qed
  have 3: "load (snd (writeToBuffer mem v offset args)) (data v + offset) (total_size args)
      = layout args"
    if "\<exists>n. fst (writeToBuffer mem v offset args) = Inr n" "total_size args \<le> 2 ^ 64"
    using that writeToBuffer_load by blast
  have 4: "elements (snd (writeToBuffer mem v offset args)) v
      = take (unat offset) (elements mem v) @ layout args
          @ drop (unat offset + total_size args) (elements mem v)"
    if "vector_ok v" "args \<noteq> []" "unat offset + total_size args \<le> unat (size_v v)"
    using that by (rule writeToBuffer_elements)
  have 5: "contents (snd (writeToFile \<sigma> file args) file) = contents (\<sigma> file) @ layout args"
    if "\<exists>r. fst (writeToFile \<sigma> file args) = Inr r" "good (snd (writeToFile \<sigma> file args) file)"
    using that writeToFile_success_contents by blast
  from 1 2 3 4 5 show ?thesis
    unfolding layout_def by blast
qed

theorem written_bytes_are_concatenation_witness:
  "(4096 :: ptr) \<noteq> 0
   \<and> total_size [VInt 42, VFloat 0x4048F5C3] \<le> 2 ^ 64
   \<and> vector_ok \<lparr>data = 4096, size_v = 10\<rparr>
   \<and> [VInt 42, VFloat 0x4048F5C3] \<noteq> []
   \<and> unat (2 :: size_t) + total_size [VInt 42, VFloat 0x4048F5C3]
        \<le> unat (size_v \<lparr>data = 4096, size_v = 10\<rparr>)
   \<and> fst (writeToBuffer (\<lambda>_. 0) \<lparr>data = 4096, size_v = 10\<rparr> 2 [VInt 42, VFloat 0x4048F5C3])
        = Inr 10
   \<and> fst (writeToFile
        (\<lambda>_. \<lparr>is_open = True, eofbit = False, failbit = False, badbit = False, contents = [1, 2]\<rparr>)
        0 [VInt 42, VFloat 0x4048F5C3]) = Inr 0
   \<and> good (snd (writeToFile
        (\<lambda>_. \<lparr>is_open = True, eofbit = False, failbit = False, badbit = False, contents = [1, 2]\<rparr>)
        0 [VInt 42, VFloat 0x4048F5C3]) 0)
   \<and> load (snd (writeToRawMemory (\<lambda>_. 0) 4096 [VInt 42, VFloat 0x4048F5C3])) 4096 8
        = [42, 0, 0, 0, 0xC3, 0xF5, 0x48, 0x40]
   \<and> load (snd (writeToBuffer (\<lambda>_. 0) \<lparr>data = 4096, size_v = 10\<rparr> 2
          [VInt 42, VFloat 0x4048F5C3])) 4098 8
        = [42, 0, 0, 0, 0xC3, 0xF5, 0x48, 0x40]
   \<and> elements (snd (writeToBuffer (\<lambda>_. 0) \<lparr>data = 4096, size_v = 10\<rparr> 2
          [VInt 42, VFloat 0x4048F5C3])) \<lparr>data = 4096, size_v = 10\<rparr>
        = [0, 0, 42, 0, 0, 0, 0xC3, 0xF5, 0x48, 0x40]
   \<and> contents (snd (writeToFile
        (\<lambda>_. \<lparr>is_open = True, eofbit = False, failbit = False, badbit = False, contents = [1, 2]\<rparr>)
        0 [VInt 42, VFloat 0x4048F5C3]) 0)
        = [1, 2, 42, 0, 0, 0, 0xC3, 0xF5, 0x48, 0x40]"
proof -
  let ?A = "[VInt 42, VFloat 0x4048F5C3]"
  let ?V = "\<lparr>data = 4096, size_v = 10\<rparr>"
  let ?S = "\<lambda>_ :: ofstream_ref.
    \<lparr>is_open = True, eofbit = False, failbit = False, badbit = False, contents = [1, 2]\<rparr>"
  have t: "total_size ?A = 8" by (simp add: total_size_def sizeof_def)
  have c: "le_bytes 4 (42 :: 32 word) = [42, 0, 0, 0]"
    "le_bytes 4 (0x4048F5C3 :: 32 word) = [0xC3, 0xF5, 0x48, 0x40]"
    by code_simp+
  have e: "elements (\<lambda>_. 0) ?V = [0, 0, 0, 0, 0, 0, 0, 0, 0, 0]"
    by code_simp
  have v: "vector_ok ?V" by (simp add: vector_ok_def)
  have r: "(2 :: size_t) + requiredSize ?A = 10" by (simp add: sizeof_def)
  have b: "fst (writeToBuffer (\<lambda>_. 0) ?V 2 ?A) = Inr 10"
    using writeToBuffer_writes [of ?V ?A 2 "\<lambda>_. 0"] v by (simp add: t r del: requiredSize.simps)
  have f: "writeToFile ?S 0 ?A
      = (Inr 0, ?S(0 := (?S 0)\<lparr>contents := contents (?S 0) @ layout ?A\<rparr>))"
    by (rule writeToFile_open_good) (simp_all add: good_def)
  have f1: "fst (writeToFile ?S 0 ?A) = Inr 0" by (simp only: f fst_conv)
  have f2: "good (snd (writeToFile ?S 0 ?A) 0)" by (simp only: f snd_conv) (simp add: good_def)
  have p: "(4096 :: ptr) + 2 = 4098" by simp
  show ?thesis
    using written_bytes_are_concatenation [of ?A 4096 "\<lambda>_. 0" ?V 2 ?S 0] b f1 f2 v
    by (simp add: t c e p sizeof_def del: le_bytes.simps)
qed

text \<open>
  Claim C4. Whatever the destination of a successful write, reading the written bytes back
  in the same order, each value by the type and width it was written with, gives the
  values written: from raw memory at the destination address, from a buffer at
  \<^verbatim>\<open>data() + offset\<close> and, for a write in range, from its elements at index \<open>offset\<close>, and
  from a stream behind the bytes it held before.
\<close>

theorem round_trip:
  "(buffer \<noteq> 0 \<and> total_size args \<le> 2 ^ 64 \<longrightarrow>
      read_back (map type_of args)
        (load (snd (writeToRawMemory mem buffer args)) buffer (total_size args)) = args)
   \<and> ((\<exists>n. fst (writeToBuffer mem v offset args) = Inr n) \<and> total_size args \<le> 2 ^ 64 \<longrightarrow>
      read_back (map type_of args)
        (load (snd (writeToBuffer mem v offset args)) (data v + offset) (total_size args)) = args)
   \<and> (vector_ok v \<and> args \<noteq> [] \<and> unat offset + total_size args \<le> unat (size_v v) \<longrightarrow>
      read_back (map type_of args)
        (drop (unat offset) (elements (snd (writeToBuffer mem v offset args)) v)) = args)
   \<and> ((\<exists>r. fst (writeToFile \<sigma> file args) = Inr r) \<and> good (snd (writeToFile \<sigma> file args) file) \<longrightarrow>
      read_back (map type_of args)
        (drop (length (contents (\<sigma> file))) (contents (snd (writeToFile \<sigma> file args) file))) = args)"
proof -
  have 2: "read_back (map type_of args)
      (load (snd (writeToRawMemory mem buffer args)) buffer (total_size args)) = args"
    if "buffer \<noteq> 0" "total_size args \<le> 2 ^ 64"
  proof -
    have "load (store mem buffer (layout args)) buffer (length (layout args)) = layout args"
      using that(2) by (intro load_store) (simp add: length_layout)
    with that(1) show ?thesis by (simp add: writeToRawMemory_eq length_layout read_back_layout)
  qed
  have 3: "read_back (map type_of args)
      (load (snd (writeToBuffer mem v offset args)) (data v + offset) (total_size args)) = args"
    if "\<exists>n. fst (writeToBuffer mem v offset args) = Inr n" "total_size args \<le> 2 ^ 64"
    using that writeToBuffer_load read_back_layout by (metis (no_types))
  have 4: "read_back (map type_of args)
      (drop (unat offset) (elements (snd (writeToBuffer mem v offset args)) v)) = args"
    if h: "vector_ok v" "args \<noteq> []" "unat offset + total_size args \<le> unat (size_v v)"
  proof -
    from h(3) have "length (take (unat offset) (elements mem v)) = unat offset"
      by (simp add: length_elements)
    then have "drop (unat offset) (take (unat offset) (elements mem v) @ layout args
          @ drop (unat offset + total_size args) (elements mem v))
        = layout args @ drop (unat offset + total_size args) (elements mem v)"
      by simp
    moreover have "elements (snd (writeToBuffer mem v offset args)) v =
        take (unat offset) (elements mem v) @ layout args
          @ drop (unat offset + total_size args) (elements mem v)"
      using h by (rule writeToBuffer_elements)
    ultimately show ?thesis
      by (simp only: read_back_layout_append)
  qed
  have 5: "read_back (map type_of args)
      (drop (length (contents (\<sigma> file))) (contents (snd (writeToFile \<sigma> file args) file))) = args"
    if "\<exists>r. fst (writeToFile \<sigma> file args) = Inr r" "good (snd (writeToFile \<sigma> file args) file)"
  proof -
    from that have "contents (snd (writeToFile \<sigma> file args) file)
        = contents (\<sigma> file) @ layout args"
      using writeToFile_success_contents by blast
    then show ?thesis by (simp add: read_back_layout)
  qed
  from 2 3 4 5 show ?thesis by blast
qed

theorem round_trip_witness:
  "(4096 :: ptr) \<noteq> 0
   \<and> total_size [VInt 42, VFloat 0x4048F5C3] \<le> 2 ^ 64
   \<and> vector_ok \<lparr>data = 4096, size_v = 10\<rparr>
   \<and> [VInt 42, VFloat 0x4048F5C3] \<noteq> []
   \<and> unat (2 :: size_t) + total_size [VInt 42, VFloat 0x4048F5C3]
        \<le> unat (size_v \<lparr>data = 4096, size_v = 10\<rparr>)
   \<and> fst (writeToBuffer (\<lambda>_. 0) \<lparr>data = 4096, size_v = 10\<rparr> 2 [VInt 42, VFloat 0x4048F5C3])
        = Inr 10
   \<and> fst (writeToFile
        (\<lambda>_. \<lparr>is_open = True, eofbit = False, failbit = False, badbit = False, contents = [1, 2]\<rparr>)
        0 [VInt 42, VFloat 0x4048F5C3]) = Inr 0
   \<and> good (snd (writeToFile
        (\<lambda>_. \<lparr>is_open = True, eofbit = False, failbit = False, badbit = False, contents = [1, 2]\<rparr>)
        0 [VInt 42, VFloat 0x4048F5C3]) 0)
   \<and> read_back [TInt, TFloat]
        (load (snd (writeToRawMemory (\<lambda>_. 0) 4096 [VInt 42, VFloat 0x4048F5C3])) 4096 8)
        = [VInt 42, VFloat 0x4048F5C3]
   \<and> read_back [TInt, TFloat]
        (load (snd (writeToBuffer (\<lambda>_. 0) \<lparr>data = 4096, size_v = 10\<rparr> 2
          [VInt 42, VFloat 0x4048F5C3])) 4098 8)
        = [VInt 42, VFloat 0x4048F5C3]
   \<and> read_back [TInt, TFloat]
        (drop 2 (elements (snd (writeToBuffer (\<lambda>_. 0) \<lparr>data = 4096, size_v = 10\<rparr> 2
          [VInt 42, VFloat 0x4048F5C3])) \<lparr>data = 4096, size_v = 10\<rparr>))
        = [VInt 42, VFloat 0x4048F5C3]
   \<and> read_back [TInt, TFloat]
        (drop 2 (contents (snd (writeToFile
          (\<lambda>_. \<lparr>is_open = True, eofbit = False, failbit = False, badbit = False, contents = [1, 2]\<rparr>)
          0 [VInt 42, VFloat 0x4048F5C3]) 0)))
        = [VInt 42, VFloat 0x4048F5C3]"
proof -
  let ?A = "[VInt 42, VFloat 0x4048F5C3]"
  let ?V = "\<lparr>data = 4096, size_v = 10\<rparr>"
  let ?S = "\<lambda>_ :: ofstream_ref.
    \<lparr>is_open = True, eofbit = False, failbit = False, badbit = False, contents = [1, 2]\<rparr>"
  have t: "total_size ?A = 8" by (simp add: total_size_def sizeof_def)
  have v: "vector_ok ?V" by (simp add: vector_ok_def)
  have r: "(2 :: size_t) + requiredSize ?A = 10" by (simp add: sizeof_def)
  have b: "fst (writeToBuffer (\<lambda>_. 0) ?V 2 ?A) = Inr 10"
    using writeToBuffer_writes [of ?V ?A 2 "\<lambda>_. 0"] v by (simp add: t r del: requiredSize.simps)
  have f: "writeToFile ?S 0 ?A
      = (Inr 0, ?S(0 := (?S 0)\<lparr>contents := contents (?S 0) @ layout ?A\<rparr>))"
    by (rule writeToFile_open_good) (simp_all add: good_def)
  have f1: "fst (writeToFile ?S 0 ?A) = Inr 0" by (simp only: f fst_conv)
  have f2: "good (snd (writeToFile ?S 0 ?A) 0)" by (simp only: f snd_conv) (simp add: good_def)
  have p: "(4096 :: ptr) + 2 = 4098" by simp
  have h0: "(4096 :: ptr) \<noteq> 0" by simp
  have h1: "total_size ?A \<le> 2 ^ 64" by (simp add: t)
  have h2: "?A \<noteq> []" by simp
  have h3: "unat (2 :: size_t) + total_size ?A \<le> unat (size_v ?V)" by (simp add: t)
  have m: "map type_of ?A = [TInt, TFloat]" by simp
  have d: "data ?V + 2 = 4098" by simp
  have u: "unat (2 :: size_t) = 2" by simp
  have l: "length (contents (?S 0)) = 2" by simp
  note rt = round_trip [of 4096 ?A "\<lambda>_. 0" ?V 2 ?S 0]
  have "read_back (map type_of ?A)
      (load (snd (writeToRawMemory (\<lambda>_. 0) 4096 ?A)) 4096 (total_size ?A)) = ?A"
    using rt h0 h1 by blast
  then have c1: "read_back [TInt, TFloat]
      (load (snd (writeToRawMemory (\<lambda>_. 0) 4096 ?A)) 4096 8) = ?A"
    by (simp only: m t)
  have "read_back (map type_of ?A)
      (load (snd (writeToBuffer (\<lambda>_. 0) ?V 2 ?A)) (data ?V + 2) (total_size ?A)) = ?A"
    using rt b h1 by blast
  then have c2: "read_back [TInt, TFloat]
      (load (snd (writeToBuffer (\<lambda>_. 0) ?V 2 ?A)) 4098 8) = ?A"
    by (simp only: m t d)
  have "read_back (map type_of ?A)
      (drop (unat (2 :: size_t)) (elements (snd (writeToBuffer (\<lambda>_. 0) ?V 2 ?A)) ?V)) = ?A"
    using rt v h2 h3 by blast
  then have c3: "read_back [TInt, TFloat]
      (drop 2 (elements (snd (writeToBuffer (\<lambda>_. 0) ?V 2 ?A)) ?V)) = ?A"
    by (simp only: m u)
  have "read_back (map type_of ?A)
      (drop (length (contents (?S 0))) (contents (snd (writeToFile ?S 0 ?A) 0))) = ?A"
    using rt f1 f2 by blast
  then have c4: "read_back [TInt, TFloat]
      (drop 2 (contents (snd (writeToFile ?S 0 ?A) 0))) = ?A"
    by (simp only: m l)
  from h0 h1 v h2 h3 b f1 f2 c1 c2 c3 c4 show ?thesis
    by (simp only: simp_thms)
qed

end
